theory Spec2Isabelle
  imports Complex_Main "HOL-Library.Log_Nat"
begin

section \<open>Numbers\<close>

text \<open>
  The TypeScript type \<^verbatim>\<open>number\<close> is the IEEE 754 double (binary64). A number is
  modelled by its value: a rational for a finite double, the two infinities, and
  \<^verbatim>\<open>NaN\<close>. The two zeros are one value \<open>Finite 0\<close>: the store only adds, multiplies and
  compares numbers, and no such operation tells \<^verbatim>\<open>-0\<close> from \<^verbatim>\<open>0\<close> other than by the sign of
  a zero result. The finite numbers of the code are the \<open>Finite r\<close> with \<open>r\<close> a double; the
  operations below are defined on every \<open>r\<close>.
\<close>

datatype number = Finite rat | PosInf | NegInf | NaN

text \<open>
  The binary exponent of a positive rational: the \<open>e\<close> with \<open>2\<^sup>e \<le> x < 2\<^sup>e\<^sup>+\<^sup>1\<close>, found from
  the bit lengths of the numerator and the denominator.
\<close>

definition exponent :: "rat \<Rightarrow> int" where
  "exponent x =
     (let (p, q) = quotient_of x; k = bitlen p - bitlen q
      in if 2 powi k \<le> x then k else k - 1)"

text \<open>Rounding to the nearest integer, a tie going to the even one.\<close>

definition round_half_even :: "rat \<Rightarrow> int" where
  "round_half_even y =
     (let f = \<lfloor>y\<rfloor>; d = y - of_int f
      in if d < 1 / 2 then f
         else if 1 / 2 < d then f + 1
         else if even f then f else f + 1)"

text \<open>
  The double nearest to a rational (round to nearest, ties to even): 53 significant
  bits, the exponent not below \<open>-1022\<close> (gradual underflow), and an infinity when the
  rounded magnitude reaches \<open>2\<^sup>1\<^sup>0\<^sup>2\<^sup>4\<close>. The literal \<^verbatim>\<open>0.1\<close> of the code is \<open>binary64 (1 / 10)\<close>.
\<close>

definition binary64 :: "rat \<Rightarrow> number" where
  "binary64 x =
     (if x = 0 then Finite 0
      else
        let e = max (exponent \<bar>x\<bar>) (- 1022);
            ulp = 2 powi (e - 52);
            r = of_int (round_half_even (\<bar>x\<bar> / ulp)) * ulp
        in if 2 ^ 1024 \<le> r then (if 0 < x then PosInf else NegInf)
           else Finite (sgn x * r))"

text \<open>
  The operators \<^verbatim>\<open>+\<close>, \<^verbatim>\<open>*\<close>, \<^verbatim>\<open><\<close> and \<^verbatim>\<open><=\<close> of the code on numbers, and its literals
  \<^verbatim>\<open>0\<close> and \<^verbatim>\<open>1\<close>. A sum or a product of finite numbers is the exact result rounded; a
  comparison with \<^verbatim>\<open>NaN\<close> is false.
\<close>

instantiation number :: "{zero, one, plus, times, ord}"
begin

definition zero_number :: number where
  "zero_number = Finite 0"

definition one_number :: number where
  "one_number = Finite 1"

fun plus_number :: "number \<Rightarrow> number \<Rightarrow> number" where
  "plus_number NaN y = NaN"
| "plus_number x NaN = NaN"
| "plus_number PosInf NegInf = NaN"
| "plus_number NegInf PosInf = NaN"
| "plus_number PosInf y = PosInf"
| "plus_number x PosInf = PosInf"
| "plus_number NegInf y = NegInf"
| "plus_number x NegInf = NegInf"
| "plus_number (Finite a) (Finite b) = binary64 (a + b)"

fun times_number :: "number \<Rightarrow> number \<Rightarrow> number" where
  "times_number NaN y = NaN"
| "times_number x NaN = NaN"
| "times_number (Finite a) (Finite b) = binary64 (a * b)"
| "times_number (Finite a) PosInf = (if a = 0 then NaN else if 0 < a then PosInf else NegInf)"
| "times_number (Finite a) NegInf = (if a = 0 then NaN else if 0 < a then NegInf else PosInf)"
| "times_number PosInf (Finite b) = (if b = 0 then NaN else if 0 < b then PosInf else NegInf)"
| "times_number NegInf (Finite b) = (if b = 0 then NaN else if 0 < b then NegInf else PosInf)"
| "times_number PosInf PosInf = PosInf"
| "times_number PosInf NegInf = NegInf"
| "times_number NegInf PosInf = NegInf"
| "times_number NegInf NegInf = PosInf"

fun less_number :: "number \<Rightarrow> number \<Rightarrow> bool" where
  "less_number (Finite a) (Finite b) = (a < b)"
| "less_number (Finite a) PosInf = True"
| "less_number NegInf (Finite b) = True"
| "less_number NegInf PosInf = True"
| "less_number x y = False"

definition less_eq_number :: "number \<Rightarrow> number \<Rightarrow> bool" where
  "less_eq_number x y = (x < y \<or> (x = y \<and> x \<noteq> NaN))"

instance ..

end

section \<open>The cart store of the storefront\<close>

text \<open>
  The cart store is the Zustand store \<^verbatim>\<open>useCartStore\<close> of \<^verbatim>\<open>store/cartStore.ts\<close>, as
  given in \<^verbatim>\<open>docs/technologies/ZUSTAND.md\<close> (lines 45 to 111) and, with the getters named
  \<^verbatim>\<open>totalItems\<close> and \<^verbatim>\<open>totalPrice\<close> and the same bodies, in
  \<^verbatim>\<open>docs/technologies/STATE_MANAGEMENT.md\<close> (lines 30 to 82).
\<close>

text \<open>
  \<^verbatim>\<open>interface CartItem { id: string; name: string; price: number; quantity: number; image: string }\<close>
  The fields \<^verbatim>\<open>id\<close> and \<^verbatim>\<open>image\<close> are primed, since HOL has constants of these names.
\<close>

record CartItem =
  id' :: string
  name :: string
  price :: number
  quantity :: number
  image' :: string

text \<open>The data part of \<^verbatim>\<open>interface CartStore\<close>: \<^verbatim>\<open>items: CartItem[]\<close>.\<close>

record CartStore =
  items :: "CartItem list"

text \<open>The initial state of the store: \<^verbatim>\<open>items: []\<close>.\<close>

definition initial :: CartStore where
  "initial = \<lparr>items = []\<rparr>"

text \<open>
  \<^verbatim>\<open>
  addItem: (item) =>
    set((state) => {
      const existing = state.items.find((i) => i.id === item.id);
      if (existing) {
        return {
          items: state.items.map((i) =>
            i.id === item.id ? { ...i, quantity: i.quantity + item.quantity } : i),
        };
      }
      return { items: [...state.items, item] };
    }),
  \<close>
  \<^verbatim>\<open>find\<close> returns the first matching element or \<^verbatim>\<open>undefined\<close>; an object is truthy, so
  the test \<^verbatim>\<open>if (existing)\<close> asks whether an element was found.
\<close>

definition addItem :: "CartItem \<Rightarrow> CartStore \<Rightarrow> CartStore" where
  "addItem item state =
     (let existing = find (\<lambda>i. id' i = id' item) (items state) in
      if existing \<noteq> None then
        state\<lparr>items :=
          map (\<lambda>i. if id' i = id' item
                   then i\<lparr>quantity := quantity i + quantity item\<rparr>
                   else i) (items state)\<rparr>
      else state\<lparr>items := items state @ [item]\<rparr>)"

text \<open>
  \<^verbatim>\<open>
  removeItem: (id) =>
    set((state) => ({ items: state.items.filter((i) => i.id !== id) })),
  \<close>
\<close>

definition removeItem :: "string \<Rightarrow> CartStore \<Rightarrow> CartStore" where
  "removeItem x state = state\<lparr>items := filter (\<lambda>i. id' i \<noteq> x) (items state)\<rparr>"

text \<open>
  \<^verbatim>\<open>
  updateQuantity: (id, quantity) =>
    set((state) => ({
      items:
        quantity > 0
          ? state.items.map((i) => (i.id === id ? { ...i, quantity } : i))
          : state.items.filter((i) => i.id !== id),
    })),
  \<close>
\<close>

definition updateQuantity :: "string \<Rightarrow> number \<Rightarrow> CartStore \<Rightarrow> CartStore" where
  "updateQuantity x q state =
     state\<lparr>items :=
       (if q > 0
        then map (\<lambda>i. if id' i = x then i\<lparr>quantity := q\<rparr> else i) (items state)
        else filter (\<lambda>i. id' i \<noteq> x) (items state))\<rparr>"

text \<open>\<^verbatim>\<open>clearCart: () => set({ items: [] })\<close>\<close>

definition clearCart :: "CartStore \<Rightarrow> CartStore" where
  "clearCart state = state\<lparr>items := []\<rparr>"

text \<open>
  \<^verbatim>\<open>
  getTotalItems: () =>
    get().items.reduce((total, item) => total + item.quantity, 0),
  \<close>
  \<^verbatim>\<open>reduce\<close> with an initial value folds from the left.
\<close>

definition getTotalItems :: "CartStore \<Rightarrow> number" where
  "getTotalItems state = foldl (\<lambda>total item. total + quantity item) 0 (items state)"

text \<open>
  \<^verbatim>\<open>
  getTotalPrice: () =>
    get().items.reduce((total, item) => total + item.price * item.quantity, 0),
  \<close>
\<close>

definition getTotalPrice :: "CartStore \<Rightarrow> number" where
  "getTotalPrice state =
     foldl (\<lambda>total item. total + price item * quantity item) 0 (items state)"

subsection \<open>Sequences of calls\<close>

text \<open>
  The four actions of the store that change its state, and the state after a sequence
  of calls made one after the other.
\<close>

datatype action =
    AddItem CartItem
  | RemoveItem string
  | UpdateQuantity string number
  | ClearCart

fun call :: "action \<Rightarrow> CartStore \<Rightarrow> CartStore" where
  "call (AddItem item) state = addItem item state"
| "call (RemoveItem x) state = removeItem x state"
| "call (UpdateQuantity x q) state = updateQuantity x q state"
| "call ClearCart state = clearCart state"

fun run :: "action list \<Rightarrow> CartStore \<Rightarrow> CartStore" where
  "run [] state = state"
| "run (a # as) state = run as (call a state)"

text \<open>Every line item has a quantity of at least one.\<close>

definition quantities_positive :: "CartStore \<Rightarrow> bool" where
  "quantities_positive state = list_all (\<lambda>i. 1 \<le> quantity i) (items state)"

text \<open>
  A call that keeps quantities at one or more: an added item has a quantity of at least
  one, and an updated quantity is either at most zero (the line is removed) or at least one.
\<close>

fun quantity_checked :: "action \<Rightarrow> bool" where
  "quantity_checked (AddItem item) = (1 \<le> quantity item)"
| "quantity_checked (UpdateQuantity x q) = (q \<le> 0 \<or> 1 \<le> q)"
| "quantity_checked _ = True"

text \<open>No two line items share an id.\<close>

definition distinct_ids :: "CartStore \<Rightarrow> bool" where
  "distinct_ids state = distinct (map id' (items state))"

subsection \<open>Exact totals\<close>

text \<open>
  The totals as sums in exact arithmetic: the sum of the quantities, and the sum of
  price times quantity, of the line items, each number taken by its value.
\<close>

fun rat_of :: "number \<Rightarrow> rat" where
  "rat_of (Finite r) = r"
| "rat_of _ = 0"

definition exact_total_items :: "CartStore \<Rightarrow> rat" where
  "exact_total_items state = (\<Sum>i\<leftarrow>items state. rat_of (quantity i))"

definition exact_total_price :: "CartStore \<Rightarrow> rat" where
  "exact_total_price state = (\<Sum>i\<leftarrow>items state. rat_of (price i) * rat_of (quantity i))"

text \<open>A number that is a non-negative integer.\<close>

fun natural :: "number \<Rightarrow> bool" where
  "natural (Finite r) = (0 \<le> r \<and> of_int \<lfloor>r\<rfloor> = r)"
| "natural _ = False"

definition natural_quantities :: "CartStore \<Rightarrow> bool" where
  "natural_quantities state = list_all (\<lambda>i. natural (quantity i)) (items state)"

definition natural_prices :: "CartStore \<Rightarrow> bool" where
  "natural_prices state = list_all (\<lambda>i. natural (price i)) (items state)"

section \<open>Auxiliary facts\<close>

subsection \<open>Rounding\<close>

lemma pow_bitlen:
  assumes "0 < p"
  shows "(2::rat) powi (bitlen p - 1) \<le> of_int p" and "of_int p < (2::rat) powi (bitlen p)"
proof -
  from bitlen_bounds [OF assms]
  have lo: "2 ^ nat (bitlen p - 1) \<le> p" and hi: "p < 2 ^ nat (bitlen p)"
    by simp_all
  have "bitlen p \<noteq> 0"
    using assms by (simp add: bitlen_eq_zero_iff)
  with bitlen_nonneg [of p] have pos: "0 < bitlen p"
    by linarith
  from lo have "(of_int (2 ^ nat (bitlen p - 1)) :: rat) \<le> of_int p"
    by (simp only: of_int_le_iff)
  then show "(2::rat) powi (bitlen p - 1) \<le> of_int p"
    using pos by (simp add: power_int_def)
  from hi have "(of_int p :: rat) < of_int (2 ^ nat (bitlen p))"
    by (simp only: of_int_less_iff)
  then show "of_int p < (2::rat) powi (bitlen p)"
    using pos by (simp add: power_int_def)
qed

lemma exponent_bounds:
  assumes "0 < x"
  shows "2 powi (exponent x) \<le> x \<and> x < 2 powi (exponent x + 1)"
proof -
  obtain p q where pq: "quotient_of x = (p, q)"
    by (cases "quotient_of x")
  then have q: "0 < q" and x: "x = of_int p / of_int q"
    by (simp_all add: quotient_of_denom_pos quotient_of_div)
  with assms have p: "0 < p"
    by (simp add: zero_less_divide_iff)
  define k where "k = bitlen p - bitlen q"
  have pw: "0 < (2::rat) powi n" for n
    by simp
  have "x < 2 powi (bitlen p) / 2 powi (bitlen q - 1)"
    unfolding x using pow_bitlen [OF p] pow_bitlen [OF q] p q pw
    by (intro frac_less) simp_all
  also have "\<dots> = 2 powi (k + 1)"
    by (simp add: k_def power_int_diff [symmetric] algebra_simps)
  finally have upper: "x < 2 powi (k + 1)" .
  have "2 powi (bitlen p - 1) / 2 powi (bitlen q) < x"
    unfolding x using pow_bitlen [OF p] pow_bitlen [OF q] p q pw
    by (intro frac_less2) simp_all
  moreover have "2 powi (bitlen p - 1) / 2 powi (bitlen q) = (2::rat) powi (k - 1)"
    by (simp add: k_def power_int_diff [symmetric] algebra_simps)
  ultimately have lower: "2 powi (k - 1) < x"
    by simp
  have e: "exponent x = (if 2 powi k \<le> x then k else k - 1)"
    by (simp add: exponent_def pq k_def)
  show ?thesis
  proof (cases "2 powi k \<le> x")
    case True
    with upper e show ?thesis by simp
  next
    case False
    with lower e show ?thesis by simp
  qed
qed

lemma pow2_less_iff: "(2::rat) powi m < 2 powi n \<longleftrightarrow> m < n"
proof
  assume less: "(2::rat) powi m < 2 powi n"
  show "m < n"
  proof (rule ccontr)
    assume "\<not> m < n"
    then have "n \<le> m" by simp
    then have "(2::rat) powi n \<le> 2 powi m"
      by (rule power_int_increasing) simp
    with less show False by simp
  qed
next
  assume "m < n"
  then show "(2::rat) powi m < 2 powi n"
    by (rule power_int_strict_increasing) simp
qed

lemma pow2_le_iff: "(2::rat) powi m \<le> 2 powi n \<longleftrightarrow> m \<le> n"
  using pow2_less_iff [of n m] by (simp add: not_less [symmetric])

lemma exponent_unique:
  assumes "0 < x" and "2 powi e \<le> x" and "x < 2 powi (e + 1)"
  shows "exponent x = e"
proof -
  from exponent_bounds [OF assms(1)]
  have lo: "2 powi (exponent x) \<le> x" and hi: "x < 2 powi (exponent x + 1)"
    by simp_all
  from lo assms(3) have "(2::rat) powi (exponent x) < 2 powi (e + 1)"
    by (rule le_less_trans)
  then have "exponent x < e + 1"
    by (simp only: pow2_less_iff)
  moreover from assms(2) hi have "(2::rat) powi e < 2 powi (exponent x + 1)"
    by (rule le_less_trans)
  then have "e < exponent x + 1"
    by (simp only: pow2_less_iff)
  ultimately show ?thesis
    by simp
qed

lemma round_half_even_of_int: "round_half_even (of_int k) = k"
  by (simp add: round_half_even_def)

lemma round_half_even_ge:
  assumes "of_int k \<le> y"
  shows "k \<le> round_half_even y"
proof -
  from assms have "k \<le> \<lfloor>y\<rfloor>"
    by (simp add: le_floor_iff)
  then show ?thesis
    by (simp add: round_half_even_def Let_def)
qed

lemma exponent_nonneg:
  assumes "1 \<le> x"
  shows "0 \<le> exponent x"
proof -
  from assms have "0 < x" by simp
  then have "x < 2 powi (exponent x + 1)"
    by (simp add: exponent_bounds)
  with assms have "(2::rat) powi 0 < 2 powi (exponent x + 1)"
    by simp
  then have "0 < exponent x + 1"
    by (simp only: pow2_less_iff)
  then show ?thesis by simp
qed

lemma binary64_ge_one:
  assumes "1 \<le> x"
  shows "1 \<le> binary64 x"
proof -
  from assms have pos: "0 < x" and nz: "x \<noteq> 0" and ab: "\<bar>x\<bar> = x" and sg: "sgn x = 1"
    by simp_all
  define e where "e = exponent x"
  define ulp :: rat where "ulp = 2 powi (e - 52)"
  define m where "m = round_half_even (x / ulp)"
  have e0: "0 \<le> e"
    unfolding e_def using assms by (rule exponent_nonneg)
  then have emax: "max e (- 1022) = e"
    by simp
  have ulp: "0 < ulp"
    by (simp add: ulp_def)
  have "2 powi e \<le> x"
    unfolding e_def using pos by (simp add: exponent_bounds)
  then have "2 powi e / ulp \<le> x / ulp"
    using ulp by (simp add: divide_right_mono)
  moreover have "2 powi e / ulp = of_int (2 ^ 52)"
    by (simp add: ulp_def power_int_diff)
  ultimately have "of_int (2 ^ 52) \<le> x / ulp"
    by simp
  then have "2 ^ 52 \<le> m"
    unfolding m_def by (rule round_half_even_ge)
  then have "(of_int (2 ^ 52) :: rat) \<le> of_int m"
    by (simp only: of_int_le_iff)
  then have "of_int (2 ^ 52) * ulp \<le> of_int m * ulp"
    using ulp by (simp add: mult_right_mono)
  moreover have "of_int (2 ^ 52) * ulp = 2 powi e"
    by (simp add: ulp_def power_int_diff)
  moreover have "(1::rat) \<le> 2 powi e"
    using e0 by (simp add: one_le_power_int)
  ultimately have r: "1 \<le> of_int m * ulp"
    by simp
  have "binary64 x = (if 2 ^ 1024 \<le> of_int m * ulp then PosInf else Finite (of_int m * ulp))"
    using nz pos by (simp add: binary64_def ab sg emax Let_def e_def [symmetric]
        ulp_def [symmetric] m_def [symmetric])
  moreover from r have "1 < of_int m * ulp \<or> of_int m * ulp = 1"
    by auto
  ultimately show ?thesis
    by (simp add: less_eq_number_def one_number_def)
qed

lemma one_le_plus:
  fixes a b :: number
  assumes "1 \<le> a" and "1 \<le> b"
  shows "1 \<le> a + b"
proof -
  from assms(1) have a: "a = PosInf \<or> (\<exists>r. a = Finite r \<and> 1 \<le> r)"
    by (cases a) (auto simp: less_eq_number_def one_number_def)
  from assms(2) have b: "b = PosInf \<or> (\<exists>r. b = Finite r \<and> 1 \<le> r)"
    by (cases b) (auto simp: less_eq_number_def one_number_def)
  have inf: "1 \<le> PosInf"
    by (simp add: less_eq_number_def one_number_def)
  from a b show ?thesis
  proof (elim disjE exE conjE)
    fix r s
    assume "a = Finite r" "1 \<le> r" "b = Finite s" "1 \<le> s"
    then have "a + b = binary64 (r + s)" and "1 \<le> r + s"
      by simp_all
    then show ?thesis
      by (simp add: binary64_ge_one)
  qed (simp_all add: inf)
qed


lemma binary64_of_nat:
  assumes "n \<le> 2 ^ 53"
  shows "binary64 (of_nat n) = Finite (of_nat n)"
proof (cases "n = 0")
  case True
  then show ?thesis by (simp add: binary64_def)
next
  case False
  define x :: rat where "x = of_nat n"
  define e where "e = exponent x"
  define ulp :: rat where "ulp = 2 powi (e - 52)"
  from False have one: "1 \<le> x"
    by (simp add: x_def)
  then have pos: "0 < x" and nz: "x \<noteq> 0" and ab: "\<bar>x\<bar> = x" and sg: "sgn x = 1"
    by simp_all
  from assms have "(of_nat n :: rat) \<le> of_nat (2 ^ 53)"
    by (simp only: of_nat_le_iff)
  then have top: "x \<le> 2 ^ 53"
    by (simp add: x_def)
  have e0: "0 \<le> e"
    unfolding e_def using one by (rule exponent_nonneg)
  then have emax: "max e (- 1022) = e"
    by simp
  have lo: "2 powi e \<le> x"
    unfolding e_def using pos by (simp add: exponent_bounds)
  with top have "(2::rat) powi e \<le> 2 powi 53"
    by simp
  then have e53: "e \<le> 53"
    by (simp only: pow2_le_iff)
  have ulp: "0 < ulp"
    by (simp add: ulp_def)
  have "\<exists>k. x / ulp = of_int k"
  proof (cases "e \<le> 52")
    case True
    then have "ulp = inverse (2 ^ nat (52 - e))"
      by (simp add: ulp_def power_int_def power_one_over inverse_eq_divide)
    then have "x / ulp = of_int (int n * 2 ^ nat (52 - e))"
      by (simp add: x_def divide_inverse)
    then show ?thesis ..
  next
    case False
    with e53 have e: "e = 53" by simp
    with lo top have "x = 2 ^ 53"
      by simp
    moreover from e have "ulp = 2"
      by (simp add: ulp_def)
    ultimately have "x / ulp = of_int (2 ^ 52)"
      by simp
    then show ?thesis ..
  qed
  then obtain k where k: "x / ulp = of_int k" ..
  then have "round_half_even (x / ulp) = k"
    by (simp add: round_half_even_of_int)
  moreover from k ulp have "of_int k * ulp = x"
    by (simp add: field_simps)
  ultimately have r: "of_int (round_half_even (x / ulp)) * ulp = x"
    by simp
  from top have small: "\<not> 2 ^ 1024 \<le> x"
    by simp
  have "binary64 x = Finite x"
    using nz small
    by (simp add: binary64_def ab sg emax Let_def e_def [symmetric] ulp_def [symmetric] r
        del: power_numeral)
  then show ?thesis
    by (simp add: x_def)
qed

subsection \<open>Comparisons\<close>

lemma le_zero_not_pos:
  fixes q :: number
  shows "q \<le> 0 \<Longrightarrow> \<not> 0 < q"
  by (cases q) (auto simp: less_eq_number_def zero_number_def)

lemma one_le_pos:
  fixes q :: number
  shows "1 \<le> q \<Longrightarrow> 0 < q"
  by (cases q) (auto simp: less_eq_number_def zero_number_def one_number_def)

subsection \<open>The two branches of adding\<close>

lemma existing_iff:
  "find (\<lambda>i. id' i = x) xs = None \<longleftrightarrow> (\<forall>i \<in> set xs. id' i \<noteq> x)"
  by (auto simp: find_None_iff)

lemma items_addItem_existing:
  assumes "\<exists>i \<in> set (items state). id' i = id' item"
  shows "items (addItem item state) =
           map (\<lambda>i. if id' i = id' item
                    then i\<lparr>quantity := quantity i + quantity item\<rparr>
                    else i) (items state)"
proof -
  from assms have "find (\<lambda>i. id' i = id' item) (items state) \<noteq> None"
    unfolding existing_iff by blast
  then show ?thesis
    unfolding addItem_def Let_def by simp
qed

lemma items_addItem_new:
  assumes "\<forall>i \<in> set (items state). id' i \<noteq> id' item"
  shows "items (addItem item state) = items state @ [item]"
proof -
  from assms have "find (\<lambda>i. id' i = id' item) (items state) = None"
    unfolding existing_iff .
  then show ?thesis
    unfolding addItem_def Let_def by simp
qed

lemma merge_keeps_id:
  "(id' \<circ> (\<lambda>i. if id' i = x then i\<lparr>quantity := g i\<rparr> else i)) = id'"
  by (simp add: fun_eq_iff)

lemma merge_keeps_ids:
  "map id' (map (\<lambda>i. if id' i = x then i\<lparr>quantity := g i\<rparr> else i) xs) = map id' xs"
  by (simp add: merge_keeps_id)

subsection \<open>Ids stay distinct\<close>

lemma distinct_ids_addItem: "distinct_ids state \<Longrightarrow> distinct_ids (addItem item state)"
proof (cases "\<exists>i \<in> set (items state). id' i = id' item")
  case True
  assume "distinct_ids state"
  with True show ?thesis
    by (simp add: distinct_ids_def items_addItem_existing merge_keeps_id)
next
  case False
  assume "distinct_ids state"
  with False show ?thesis
    by (auto simp: distinct_ids_def items_addItem_new)
qed

lemma distinct_ids_removeItem: "distinct_ids state \<Longrightarrow> distinct_ids (removeItem x state)"
  by (simp add: distinct_ids_def removeItem_def distinct_map_filter)

lemma distinct_ids_updateQuantity:
  "distinct_ids state \<Longrightarrow> distinct_ids (updateQuantity x q state)"
  by (simp add: distinct_ids_def updateQuantity_def distinct_map_filter merge_keeps_id)

lemma distinct_ids_call: "distinct_ids state \<Longrightarrow> distinct_ids (call a state)"
  by (cases a)
    (simp_all add: distinct_ids_addItem distinct_ids_removeItem distinct_ids_updateQuantity,
     simp add: distinct_ids_def clearCart_def)

lemma distinct_ids_run: "distinct_ids state \<Longrightarrow> distinct_ids (run as state)"
  by (induction as arbitrary: state) (simp_all add: distinct_ids_call)

lemma distinct_ids_reachable: "distinct_ids (run as initial)"
  by (rule distinct_ids_run) (simp add: distinct_ids_def initial_def)

subsection \<open>Quantities stay at one or more under checked calls\<close>

lemma merge_quantities_positive:
  assumes "list_all (\<lambda>i. 1 \<le> quantity i) xs" and "1 \<le> d"
  shows "list_all (\<lambda>i. 1 \<le> quantity i)
           (map (\<lambda>i. if id' i = x then i\<lparr>quantity := quantity i + d\<rparr> else i) xs)"
  using assms by (induction xs) (simp_all add: one_le_plus)

lemma update_quantities_positive:
  assumes "list_all (\<lambda>i. 1 \<le> quantity i) xs" and "1 \<le> q"
  shows "list_all (\<lambda>i. 1 \<le> quantity i)
           (map (\<lambda>i. if id' i = x then i\<lparr>quantity := q\<rparr> else i) xs)"
  using assms by (induction xs) simp_all

lemma filter_quantities_positive:
  assumes "list_all (\<lambda>i. 1 \<le> quantity i) xs"
  shows "list_all (\<lambda>i. 1 \<le> quantity i) (filter (\<lambda>i. id' i \<noteq> x) xs)"
  using assms by (induction xs) simp_all

lemma quantities_positive_addItem:
  assumes "quantities_positive state" and "1 \<le> quantity item"
  shows "quantities_positive (addItem item state)"
proof (cases "\<exists>i \<in> set (items state). id' i = id' item")
  case True
  from assms show ?thesis
    unfolding quantities_positive_def items_addItem_existing [OF True]
    by (rule merge_quantities_positive)
next
  case False
  with assms show ?thesis
    by (simp add: quantities_positive_def items_addItem_new)
qed

lemma items_updateQuantity_pos:
  "0 < q \<Longrightarrow> items (updateQuantity x q state)
     = map (\<lambda>i. if id' i = x then i\<lparr>quantity := q\<rparr> else i) (items state)"
  by (simp add: updateQuantity_def)

lemma items_updateQuantity_nonpos:
  "\<not> 0 < q \<Longrightarrow> items (updateQuantity x q state) = filter (\<lambda>i. id' i \<noteq> x) (items state)"
  by (simp add: updateQuantity_def)

lemma quantities_positive_updateQuantity:
  assumes "quantities_positive state" and "q \<le> 0 \<or> 1 \<le> q"
  shows "quantities_positive (updateQuantity x q state)"
  using assms(2)
proof
  assume "q \<le> 0"
  then have "\<not> 0 < q"
    by (rule le_zero_not_pos)
  then have "items (updateQuantity x q state) = filter (\<lambda>i. id' i \<noteq> x) (items state)"
    by (rule items_updateQuantity_nonpos)
  moreover have "list_all (\<lambda>i. 1 \<le> quantity i) (filter (\<lambda>i. id' i \<noteq> x) (items state))"
    using assms(1) unfolding quantities_positive_def by (rule filter_quantities_positive)
  ultimately show ?thesis
    unfolding quantities_positive_def by simp
next
  assume q: "1 \<le> q"
  then have "0 < q"
    by (rule one_le_pos)
  then have "items (updateQuantity x q state)
      = map (\<lambda>i. if id' i = x then i\<lparr>quantity := q\<rparr> else i) (items state)"
    by (rule items_updateQuantity_pos)
  moreover have "list_all (\<lambda>i. 1 \<le> quantity i)
      (map (\<lambda>i. if id' i = x then i\<lparr>quantity := q\<rparr> else i) (items state))"
    using assms(1) q unfolding quantities_positive_def by (rule update_quantities_positive)
  ultimately show ?thesis
    unfolding quantities_positive_def by simp
qed

lemma quantities_positive_call:
  assumes "quantities_positive state" and "quantity_checked a"
  shows "quantities_positive (call a state)"
proof (cases a)
  case (AddItem item)
  with assms show ?thesis by (simp add: quantities_positive_addItem)
next
  case (RemoveItem x)
  with assms show ?thesis
    by (simp add: quantities_positive_def removeItem_def filter_quantities_positive)
next
  case (UpdateQuantity x q)
  with assms show ?thesis by (simp add: quantities_positive_updateQuantity)
next
  case ClearCart
  then show ?thesis by (simp add: quantities_positive_def clearCart_def)
qed

lemma quantities_positive_run:
  "quantities_positive state \<Longrightarrow> list_all quantity_checked as \<Longrightarrow>
     quantities_positive (run as state)"
  by (induction as arbitrary: state) (simp_all add: quantities_positive_call)

subsection \<open>Updating a quantity\<close>

lemma updated_quantity:
  "i \<in> set (map (\<lambda>i. if id' i = x then i\<lparr>quantity := q\<rparr> else i) xs) \<Longrightarrow>
     id' i = x \<Longrightarrow> quantity i = q"
proof (induction xs)
  case Nil
  then show ?case by simp
next
  case (Cons a xs)
  from Cons.prems(1) consider
      "i = (if id' a = x then a\<lparr>quantity := q\<rparr> else a)"
    | "i \<in> set (map (\<lambda>i. if id' i = x then i\<lparr>quantity := q\<rparr> else i) xs)"
    unfolding list.map set_simps by blast
  then show ?case
  proof cases
    case 1
    with Cons.prems(2) show ?thesis by (cases "id' a = x") simp_all
  next
    case 2
    then show ?thesis using Cons.prems(2) by (rule Cons.IH)
  qed
qed

lemma updated_others:
  "filter (\<lambda>i. id' i \<noteq> x) (map (\<lambda>i. if id' i = x then i\<lparr>quantity := q\<rparr> else i) xs)
     = filter (\<lambda>i. id' i \<noteq> x) xs"
  by (induction xs) simp_all

subsection \<open>Totals of non-negative integers\<close>

lemma natural_Finite:
  assumes "natural x"
  obtains r where "x = Finite r" and "r \<in> \<nat>"
proof (cases x)
  case (Finite r)
  with assms have "0 \<le> r \<and> of_int \<lfloor>r\<rfloor> = r"
    by (simp only: natural.simps)
  then have r0: "0 \<le> r" and fl: "of_int \<lfloor>r\<rfloor> = r"
    by blast+
  from r0 have "0 \<le> \<lfloor>r\<rfloor>"
    by simp
  moreover from fl have "r = of_int \<lfloor>r\<rfloor>"
    by (rule sym)
  ultimately have "r = of_nat (nat \<lfloor>r\<rfloor>)"
    by (metis of_nat_nat)
  then have "r \<in> \<nat>"
    by (metis of_nat_in_Nats)
  with Finite show ?thesis
    by (rule that)
qed (use assms in simp_all)

lemma binary64_Nats:
  assumes "r \<in> \<nat>" and "r \<le> 2 ^ 53"
  shows "binary64 r = Finite r"
proof -
  from assms(1) obtain n where r: "r = of_nat n"
    by (rule Nats_cases)
  with assms(2) have "(of_nat n :: rat) \<le> of_nat (2 ^ 53)"
    by simp
  then have "n \<le> 2 ^ 53"
    by (simp only: of_nat_le_iff)
  then show ?thesis
    unfolding r by (rule binary64_of_nat)
qed

lemma Nats_nonneg:
  fixes r :: rat
  shows "r \<in> \<nat> \<Longrightarrow> 0 \<le> r"
  by (auto elim: Nats_cases)

lemma sum_list_Nats_nonneg:
  fixes h :: "'a \<Rightarrow> rat"
  assumes "\<forall>x \<in> set xs. h x \<in> \<nat>"
  shows "0 \<le> sum_list (map h xs)"
  using assms by (induction xs) (simp_all add: Nats_nonneg)

lemma member_le_sum_list_Nats:
  fixes h :: "'a \<Rightarrow> rat"
  assumes "\<forall>x \<in> set xs. h x \<in> \<nat>" and "y \<in> set xs"
  shows "h y \<le> sum_list (map h xs)"
  using assms
proof (induction xs)
  case Nil
  then show ?case by simp
next
  case (Cons x xs)
  from Cons.prems(1) have rest: "0 \<le> sum_list (map h xs)"
    by (simp add: sum_list_Nats_nonneg)
  from Cons.prems(1) have head: "0 \<le> h x"
    by (simp add: Nats_nonneg)
  show ?case
  proof (cases "y = x")
    case True
    with rest show ?thesis by simp
  next
    case False
    with Cons.prems have "y \<in> set xs" and "\<forall>x \<in> set xs. h x \<in> \<nat>"
      by simp_all
    then have "h y \<le> sum_list (map h xs)"
      using Cons.IH by blast
    with head show ?thesis by simp
  qed
qed

lemma foldl_exact:
  fixes g :: "'a \<Rightarrow> number" and h :: "'a \<Rightarrow> rat"
  assumes "a \<in> \<nat>"
    and "\<forall>x \<in> set xs. g x = Finite (h x) \<and> h x \<in> \<nat>"
    and "a + sum_list (map h xs) \<le> 2 ^ 53"
  shows "foldl (\<lambda>total x. total + g x) (Finite a) xs = Finite (a + sum_list (map h xs))"
  using assms
proof (induction xs arbitrary: a)
  case Nil
  then show ?case by simp
next
  case (Cons x xs)
  from Cons.prems(2) have gx: "g x = Finite (h x)" and hx: "h x \<in> \<nat>"
    and tail: "\<forall>x \<in> set xs. g x = Finite (h x) \<and> h x \<in> \<nat>"
    by simp_all
  from tail have "0 \<le> sum_list (map h xs)"
    by (simp add: sum_list_Nats_nonneg)
  with Cons.prems(3) have small: "a + h x \<le> 2 ^ 53"
    by simp
  from Cons.prems(1) hx have nat: "a + h x \<in> \<nat>"
    by (rule Nats_add)
  then have step: "Finite a + g x = Finite (a + h x)"
    using small by (simp add: gx binary64_Nats del: power_numeral)
  from Cons.prems(3) have "(a + h x) + sum_list (map h xs) \<le> 2 ^ 53"
    by (simp add: add.assoc)
  with nat tail
  have "foldl (\<lambda>total x. total + g x) (Finite (a + h x)) xs
      = Finite ((a + h x) + sum_list (map h xs))"
    by (rule Cons.IH)
  with step show ?case
    by (simp add: add.assoc)
qed

lemma getTotalItems_exact:
  assumes "natural_quantities state" and "exact_total_items state \<le> 2 ^ 53"
  shows "getTotalItems state = Finite (exact_total_items state)"
proof -
  have every: "\<forall>i \<in> set (items state).
      quantity i = Finite (rat_of (quantity i)) \<and> rat_of (quantity i) \<in> \<nat>"
  proof
    fix i
    assume "i \<in> set (items state)"
    with assms(1) have "natural (quantity i)"
      by (simp add: natural_quantities_def list_all_iff)
    then show "quantity i = Finite (rat_of (quantity i)) \<and> rat_of (quantity i) \<in> \<nat>"
      by (rule natural_Finite) simp
  qed
  have zero: "(0::rat) \<in> \<nat>"
    by simp
  from assms(2)
  have bound: "0 + sum_list (map (\<lambda>i. rat_of (quantity i)) (items state)) \<le> 2 ^ 53"
    by (simp add: exact_total_items_def)
  from zero every bound
  have "foldl (\<lambda>total item. total + quantity item) (Finite 0) (items state)
      = Finite (0 + sum_list (map (\<lambda>i. rat_of (quantity i)) (items state)))"
    by (rule foldl_exact)
  then show ?thesis
    by (simp add: getTotalItems_def exact_total_items_def zero_number_def)
qed

lemma getTotalPrice_exact:
  assumes "natural_prices state" and "natural_quantities state"
    and "exact_total_price state \<le> 2 ^ 53"
  shows "getTotalPrice state = Finite (exact_total_price state)"
proof -
  let ?h = "\<lambda>i. rat_of (price i) * rat_of (quantity i)"
  have nat: "\<forall>i \<in> set (items state). ?h i \<in> \<nat>"
  proof
    fix i
    assume "i \<in> set (items state)"
    with assms(1,2) have "natural (price i)" and "natural (quantity i)"
      by (simp_all add: natural_prices_def natural_quantities_def list_all_iff)
    then show "?h i \<in> \<nat>"
      by (elim natural_Finite) (simp add: Nats_mult)
  qed
  have every: "\<forall>i \<in> set (items state). price i * quantity i = Finite (?h i) \<and> ?h i \<in> \<nat>"
  proof
    fix i
    assume i: "i \<in> set (items state)"
    with assms(1,2) have "natural (price i)" and "natural (quantity i)"
      by (simp_all add: natural_prices_def natural_quantities_def list_all_iff)
    then obtain p q where p: "price i = Finite p" and q: "quantity i = Finite q"
      by (elim natural_Finite)
    from nat i have hi: "?h i \<in> \<nat>"
      by blast
    from nat i have "?h i \<le> sum_list (map ?h (items state))"
      by (rule member_le_sum_list_Nats)
    with assms(3) have "?h i \<le> 2 ^ 53"
      by (simp add: exact_total_price_def)
    with hi have "binary64 (?h i) = Finite (?h i)"
      by (rule binary64_Nats)
    then have "price i * quantity i = Finite (?h i)"
      by (simp add: p q)
    with hi show "price i * quantity i = Finite (?h i) \<and> ?h i \<in> \<nat>"
      by simp
  qed
  have zero: "(0::rat) \<in> \<nat>"
    by simp
  from assms(3) have bound: "0 + sum_list (map ?h (items state)) \<le> 2 ^ 53"
    by (simp add: exact_total_price_def)
  from zero every bound
  have "foldl (\<lambda>total item. total + price item * quantity item) (Finite 0) (items state)
      = Finite (0 + sum_list (map ?h (items state)))"
    by (rule foldl_exact [where g = "\<lambda>i. price i * quantity i" and h = ?h])
  then show ?thesis
    by (simp add: getTotalPrice_def exact_total_price_def zero_number_def)
qed

subsection \<open>The total number of items after a merge\<close>







subsection \<open>Rounding a given rational\<close>

lemma binary64_eval:
  assumes "0 < x" and "2 powi e \<le> x" and "x < 2 powi (e + 1)" and "- 1022 \<le> e"
    and "of_int f \<le> x / 2 powi (e - 52)" and "x / 2 powi (e - 52) < of_int f + 1"
    and "m = (if x / 2 powi (e - 52) - of_int f < 1 / 2 then f
              else if 1 / 2 < x / 2 powi (e - 52) - of_int f then f + 1
              else if even f then f else f + 1)"
    and "(of_int m :: rat) * 2 powi (e - 52) < 2 ^ 1024"
  shows "binary64 x = Finite (of_int m * 2 powi (e - 52))"
proof -
  from assms(1-3) have e: "exponent x = e"
    by (rule exponent_unique)
  from assms(5,6) have "\<lfloor>x / 2 powi (e - 52)\<rfloor> = f"
    by (intro floor_unique)
  with assms(7) have m: "round_half_even (x / 2 powi (e - 52)) = m"
    by (simp add: round_half_even_def Let_def)
  from assms(1) have "x \<noteq> 0" and "\<bar>x\<bar> = x" and "sgn x = 1"
    by simp_all
  moreover from assms(4) have "max e (- 1022) = e"
    by simp
  moreover from assms(8) have "\<not> 2 ^ 1024 \<le> (of_int m :: rat) * 2 powi (e - 52)"
    by simp
  ultimately show ?thesis
    by (simp add: binary64_def e m Let_def del: power_numeral)
qed

lemma binary64_tenth: "binary64 (1 / 10) = Finite (3602879701896397 / 36028797018963968)"
  using binary64_eval [where x = "1 / 10" and e = "- 4" and f = 7205759403792793
      and m = 7205759403792794]
  by simp

lemma binary64_three_tenths:
  "binary64 (10808639105689191 / 36028797018963968)
     = Finite (1351079888211149 / 4503599627370496)"
  using binary64_eval [where x = "10808639105689191 / 36028797018963968" and e = "- 2"
      and f = 5404319552844595 and m = 5404319552844596]
  by simp

lemma binary64_three_tenths_again:
  "binary64 (1351079888211149 / 4503599627370496)
     = Finite (1351079888211149 / 4503599627370496)"
  using binary64_eval [where x = "1351079888211149 / 4503599627370496" and e = "- 2"
      and f = 5404319552844596 and m = 5404319552844596]
  by simp

lemma binary64_above_2_53: "binary64 9007199254740993 = Finite 9007199254740992"
  using binary64_eval [where x = 9007199254740993 and e = 53
      and f = 4503599627370496 and m = 4503599627370496]
  by simp


section \<open>The claims\<close>

subsection \<open>Adding an item whose id is in the cart\<close>

text \<open>
  Claim C1. When the id of the added item is the id of a line item of the cart,
  \<open>addItem\<close> keeps the number of line items, keeps the id at every position, so no
  further line with that id (or any other) appears, and gives every line with that id
  its old quantity plus the quantity of the added item.
\<close>

theorem addItem_existing_merges:
  assumes "\<exists>i \<in> set (items state). id' i = id' item"
  shows "length (items (addItem item state)) = length (items state)
       \<and> map id' (items (addItem item state)) = map id' (items state)
       \<and> list_all2 (\<lambda>old new.
            quantity new = (if id' old = id' item
                            then quantity old + quantity item
                            else quantity old))
          (items state) (items (addItem item state))"
proof -
  let ?merge = "\<lambda>i. if id' i = id' item then i\<lparr>quantity := quantity i + quantity item\<rparr> else i"
  have eq: "items (addItem item state) = map ?merge (items state)"
    using assms by (rule items_addItem_existing)
  have "length (map ?merge (items state)) = length (items state)"
    by simp
  moreover have "map id' (map ?merge (items state)) = map id' (items state)"
    by (rule merge_keeps_ids)
  moreover have "list_all2 (\<lambda>old new.
            quantity new = (if id' old = id' item
                            then quantity old + quantity item
                            else quantity old))
          (items state) (map ?merge (items state))"
    by (simp add: list_all2_map2 list_all2_same)
  ultimately show ?thesis
    unfolding eq by blast
qed

theorem addItem_existing_merges_witness:
  "(\<exists>i \<in> set (items \<lparr>items =
        [\<lparr>id' = ''p1'', name = ''Mug'', price = Finite 5, quantity = Finite 2,
          image' = ''mug.png''\<rparr>,
         \<lparr>id' = ''p2'', name = ''Pen'', price = Finite 1, quantity = Finite 1,
          image' = ''pen.png''\<rparr>]\<rparr>).
      id' i = id' \<lparr>id' = ''p1'', name = ''Mug'', price = Finite 6, quantity = Finite 3,
                   image' = ''m.png''\<rparr>)
   \<and> items (addItem
        \<lparr>id' = ''p1'', name = ''Mug'', price = Finite 6, quantity = Finite 3, image' = ''m.png''\<rparr>
        \<lparr>items =
          [\<lparr>id' = ''p1'', name = ''Mug'', price = Finite 5, quantity = Finite 2,
            image' = ''mug.png''\<rparr>,
           \<lparr>id' = ''p2'', name = ''Pen'', price = Finite 1, quantity = Finite 1,
            image' = ''pen.png''\<rparr>]\<rparr>)
     = [\<lparr>id' = ''p1'', name = ''Mug'', price = Finite 5, quantity = Finite 5,
         image' = ''mug.png''\<rparr>,
        \<lparr>id' = ''p2'', name = ''Pen'', price = Finite 1, quantity = Finite 1,
         image' = ''pen.png''\<rparr>]"
proof -
  let ?s = "\<lparr>items =
      [\<lparr>id' = ''p1'', name = ''Mug'', price = Finite 5, quantity = Finite 2,
        image' = ''mug.png''\<rparr>,
       \<lparr>id' = ''p2'', name = ''Pen'', price = Finite 1, quantity = Finite 1,
        image' = ''pen.png''\<rparr>]\<rparr>"
  let ?item = "\<lparr>id' = ''p1'', name = ''Mug'', price = Finite 6, quantity = Finite 3,
      image' = ''m.png''\<rparr>"
  have present: "\<exists>i \<in> set (items ?s). id' i = id' ?item"
    by simp
  have "length (items (addItem ?item ?s)) = length (items ?s)"
    using addItem_existing_merges [OF present] by (rule conjunct1)
  moreover have "items (addItem ?item ?s) =
      [\<lparr>id' = ''p1'', name = ''Mug'', price = Finite 5, quantity = Finite 5,
        image' = ''mug.png''\<rparr>,
       \<lparr>id' = ''p2'', name = ''Pen'', price = Finite 1, quantity = Finite 1,
        image' = ''pen.png''\<rparr>]"
    by (simp add: addItem_def binary64_Nats)
  ultimately show ?thesis
    using present by simp
qed

subsection \<open>The total price\<close>

text \<open>
  Claim C2, as amended. \<open>getTotalPrice\<close> adds the products price times quantity from the
  first line on, starting from zero, each product and each sum rounded to a double. On a
  cart whose prices and quantities are non-negative integers and whose exact total is at
  most \<open>2\<^sup>5\<^sup>3\<close> nothing is rounded, and \<open>getTotalPrice\<close> is exactly the sum, over the line
  items, of price times quantity; for the empty cart it is zero.
\<close>

theorem getTotalPrice_is_exact_sum:
  assumes "natural_prices state" and "natural_quantities state"
    and "exact_total_price state \<le> 2 ^ 53"
  shows "getTotalPrice state = Finite (exact_total_price state) \<and> getTotalPrice initial = 0"
proof
  from assms show "getTotalPrice state = Finite (exact_total_price state)"
    by (rule getTotalPrice_exact)
next
  show "getTotalPrice initial = 0"
    by (simp add: getTotalPrice_def initial_def)
qed

theorem getTotalPrice_is_exact_sum_witness:
  "natural_prices \<lparr>items =
        [\<lparr>id' = ''p1'', name = ''Mug'', price = Finite 5, quantity = Finite 2,
          image' = ''mug.png''\<rparr>,
         \<lparr>id' = ''p2'', name = ''Pen'', price = Finite 1, quantity = Finite 3,
          image' = ''pen.png''\<rparr>]\<rparr>
   \<and> natural_quantities \<lparr>items =
        [\<lparr>id' = ''p1'', name = ''Mug'', price = Finite 5, quantity = Finite 2,
          image' = ''mug.png''\<rparr>,
         \<lparr>id' = ''p2'', name = ''Pen'', price = Finite 1, quantity = Finite 3,
          image' = ''pen.png''\<rparr>]\<rparr>
   \<and> exact_total_price \<lparr>items =
        [\<lparr>id' = ''p1'', name = ''Mug'', price = Finite 5, quantity = Finite 2,
          image' = ''mug.png''\<rparr>,
         \<lparr>id' = ''p2'', name = ''Pen'', price = Finite 1, quantity = Finite 3,
          image' = ''pen.png''\<rparr>]\<rparr> \<le> 2 ^ 53
   \<and> getTotalPrice \<lparr>items =
        [\<lparr>id' = ''p1'', name = ''Mug'', price = Finite 5, quantity = Finite 2,
          image' = ''mug.png''\<rparr>,
         \<lparr>id' = ''p2'', name = ''Pen'', price = Finite 1, quantity = Finite 3,
          image' = ''pen.png''\<rparr>]\<rparr> = Finite 13"
proof -
  let ?s = "\<lparr>items =
        [\<lparr>id' = ''p1'', name = ''Mug'', price = Finite 5, quantity = Finite 2,
          image' = ''mug.png''\<rparr>,
         \<lparr>id' = ''p2'', name = ''Pen'', price = Finite 1, quantity = Finite 3,
          image' = ''pen.png''\<rparr>]\<rparr>"
  have prices: "natural_prices ?s" and quantities: "natural_quantities ?s"
    by (simp_all add: natural_prices_def natural_quantities_def)
  have total: "exact_total_price ?s = 13"
    by (simp add: exact_total_price_def)
  then have small: "exact_total_price ?s \<le> 2 ^ 53"
    by simp
  from getTotalPrice_is_exact_sum [OF prices quantities small]
  have "getTotalPrice ?s = Finite (exact_total_price ?s)"
    by (rule conjunct1)
  with total have "getTotalPrice ?s = Finite 13"
    by simp
  with prices quantities small show ?thesis
    by (intro conjI)
qed

text \<open>
  With a price that is not an integer the total is not the exact sum: the price \<^verbatim>\<open>0.1\<close>,
  the double \<open>3602879701896397 / 2\<^sup>5\<^sup>5\<close>, and the quantity 3 give the total
  \<^verbatim>\<open>0.30000000000000004\<close>, the double \<open>1351079888211149 / 2\<^sup>5\<^sup>2\<close>, which is more than three
  times the price.
\<close>

theorem getTotalPrice_is_exact_sum_counterexample:
  "binary64 (1 / 10) = Finite (3602879701896397 / 36028797018963968)
   \<and> getTotalPrice \<lparr>items =
        [\<lparr>id' = ''p1'', name = ''Mug'',
          price = Finite (3602879701896397 / 36028797018963968), quantity = Finite 3,
          image' = ''mug.png''\<rparr>]\<rparr>
      = Finite (1351079888211149 / 4503599627370496)
   \<and> exact_total_price \<lparr>items =
        [\<lparr>id' = ''p1'', name = ''Mug'',
          price = Finite (3602879701896397 / 36028797018963968), quantity = Finite 3,
          image' = ''mug.png''\<rparr>]\<rparr>
      = 10808639105689191 / 36028797018963968
   \<and> getTotalPrice \<lparr>items =
        [\<lparr>id' = ''p1'', name = ''Mug'',
          price = Finite (3602879701896397 / 36028797018963968), quantity = Finite 3,
          image' = ''mug.png''\<rparr>]\<rparr>
      \<noteq> Finite (exact_total_price \<lparr>items =
        [\<lparr>id' = ''p1'', name = ''Mug'',
          price = Finite (3602879701896397 / 36028797018963968), quantity = Finite 3,
          image' = ''mug.png''\<rparr>]\<rparr>)"
  by (simp add: getTotalPrice_def exact_total_price_def zero_number_def
      binary64_tenth binary64_three_tenths binary64_three_tenths_again)

subsection \<open>The total number of items\<close>

text \<open>
  Claim C6, as amended. \<open>getTotalItems\<close> adds the quantities from the first line on,
  starting from zero, each sum rounded to a double. On a cart whose quantities are
  non-negative integers and whose exact total is at most \<open>2\<^sup>5\<^sup>3\<close> nothing is rounded, and
  \<open>getTotalItems\<close> is exactly the sum of the quantities of the line items; for the empty
  cart it is zero.
\<close>

theorem getTotalItems_is_exact_sum:
  assumes "natural_quantities state" and "exact_total_items state \<le> 2 ^ 53"
  shows "getTotalItems state = Finite (exact_total_items state) \<and> getTotalItems initial = 0"
proof
  from assms show "getTotalItems state = Finite (exact_total_items state)"
    by (rule getTotalItems_exact)
next
  show "getTotalItems initial = 0"
    by (simp add: getTotalItems_def initial_def)
qed

theorem getTotalItems_is_exact_sum_witness:
  "natural_quantities \<lparr>items =
        [\<lparr>id' = ''p1'', name = ''Mug'', price = Finite 5, quantity = Finite 2,
          image' = ''mug.png''\<rparr>,
         \<lparr>id' = ''p2'', name = ''Pen'', price = Finite 1, quantity = Finite 3,
          image' = ''pen.png''\<rparr>]\<rparr>
   \<and> exact_total_items \<lparr>items =
        [\<lparr>id' = ''p1'', name = ''Mug'', price = Finite 5, quantity = Finite 2,
          image' = ''mug.png''\<rparr>,
         \<lparr>id' = ''p2'', name = ''Pen'', price = Finite 1, quantity = Finite 3,
          image' = ''pen.png''\<rparr>]\<rparr> \<le> 2 ^ 53
   \<and> getTotalItems \<lparr>items =
        [\<lparr>id' = ''p1'', name = ''Mug'', price = Finite 5, quantity = Finite 2,
          image' = ''mug.png''\<rparr>,
         \<lparr>id' = ''p2'', name = ''Pen'', price = Finite 1, quantity = Finite 3,
          image' = ''pen.png''\<rparr>]\<rparr> = Finite 5"
proof -
  let ?s = "\<lparr>items =
        [\<lparr>id' = ''p1'', name = ''Mug'', price = Finite 5, quantity = Finite 2,
          image' = ''mug.png''\<rparr>,
         \<lparr>id' = ''p2'', name = ''Pen'', price = Finite 1, quantity = Finite 3,
          image' = ''pen.png''\<rparr>]\<rparr>"
  have quantities: "natural_quantities ?s"
    by (simp add: natural_quantities_def)
  have total: "exact_total_items ?s = 5"
    by (simp add: exact_total_items_def)
  then have small: "exact_total_items ?s \<le> 2 ^ 53"
    by simp
  from getTotalItems_is_exact_sum [OF quantities small]
  have "getTotalItems ?s = Finite (exact_total_items ?s)"
    by (rule conjunct1)
  with total have "getTotalItems ?s = Finite 5"
    by simp
  with quantities small show ?thesis
    by (intro conjI)
qed

text \<open>
  Beyond \<open>2\<^sup>5\<^sup>3\<close> the total is not the exact sum: the quantities \<open>2\<^sup>5\<^sup>3\<close> and 1 give the total
  \<open>2\<^sup>5\<^sup>3\<close>.
\<close>

theorem getTotalItems_is_exact_sum_counterexample:
  "getTotalItems \<lparr>items =
        [\<lparr>id' = ''p1'', name = ''Mug'', price = Finite 5, quantity = Finite 9007199254740992,
          image' = ''mug.png''\<rparr>,
         \<lparr>id' = ''p2'', name = ''Pen'', price = Finite 1, quantity = Finite 1,
          image' = ''pen.png''\<rparr>]\<rparr>
      = Finite 9007199254740992
   \<and> exact_total_items \<lparr>items =
        [\<lparr>id' = ''p1'', name = ''Mug'', price = Finite 5, quantity = Finite 9007199254740992,
          image' = ''mug.png''\<rparr>,
         \<lparr>id' = ''p2'', name = ''Pen'', price = Finite 1, quantity = Finite 1,
          image' = ''pen.png''\<rparr>]\<rparr>
      = 9007199254740993
   \<and> getTotalItems \<lparr>items =
        [\<lparr>id' = ''p1'', name = ''Mug'', price = Finite 5, quantity = Finite 9007199254740992,
          image' = ''mug.png''\<rparr>,
         \<lparr>id' = ''p2'', name = ''Pen'', price = Finite 1, quantity = Finite 1,
          image' = ''pen.png''\<rparr>]\<rparr>
      \<noteq> Finite (exact_total_items \<lparr>items =
        [\<lparr>id' = ''p1'', name = ''Mug'', price = Finite 5, quantity = Finite 9007199254740992,
          image' = ''mug.png''\<rparr>,
         \<lparr>id' = ''p2'', name = ''Pen'', price = Finite 1, quantity = Finite 1,
          image' = ''pen.png''\<rparr>]\<rparr>)"
  by (simp add: getTotalItems_def exact_total_items_def zero_number_def
      binary64_Nats binary64_above_2_53)

subsection \<open>Quantities of at least one\<close>

text \<open>
  Claim C3, as amended. From the empty cart, after any sequence of \<open>addItem\<close>,
  \<open>removeItem\<close>, \<open>updateQuantity\<close> and \<open>clearCart\<close> calls in which every added item has a
  quantity of at least one and every updated quantity is at most zero or at least one,
  every line item has a quantity of at least one.
\<close>

theorem quantities_positive_reachable:
  assumes "list_all quantity_checked as"
  shows "quantities_positive (run as initial)"
proof -
  have "quantities_positive initial"
    by (simp add: quantities_positive_def initial_def)
  then show ?thesis
    using assms by (rule quantities_positive_run)
qed

theorem quantities_positive_reachable_witness:
  "list_all quantity_checked
     [AddItem \<lparr>id' = ''p1'', name = ''Mug'', price = Finite 5, quantity = Finite 1,
               image' = ''mug.png''\<rparr>,
      AddItem \<lparr>id' = ''p2'', name = ''Pen'', price = Finite 1, quantity = Finite 4,
               image' = ''pen.png''\<rparr>,
      AddItem \<lparr>id' = ''p1'', name = ''Mug'', price = Finite 5, quantity = Finite 2,
               image' = ''mug.png''\<rparr>,
      UpdateQuantity ''p2'' 0,
      UpdateQuantity ''p1'' (Finite 7),
      RemoveItem ''p3'']
   \<and> quantities_positive (run
     [AddItem \<lparr>id' = ''p1'', name = ''Mug'', price = Finite 5, quantity = Finite 1,
               image' = ''mug.png''\<rparr>,
      AddItem \<lparr>id' = ''p2'', name = ''Pen'', price = Finite 1, quantity = Finite 4,
               image' = ''pen.png''\<rparr>,
      AddItem \<lparr>id' = ''p1'', name = ''Mug'', price = Finite 5, quantity = Finite 2,
               image' = ''mug.png''\<rparr>,
      UpdateQuantity ''p2'' 0,
      UpdateQuantity ''p1'' (Finite 7),
      RemoveItem ''p3''] initial)
   \<and> items (run
     [AddItem \<lparr>id' = ''p1'', name = ''Mug'', price = Finite 5, quantity = Finite 1,
               image' = ''mug.png''\<rparr>,
      AddItem \<lparr>id' = ''p2'', name = ''Pen'', price = Finite 1, quantity = Finite 4,
               image' = ''pen.png''\<rparr>,
      AddItem \<lparr>id' = ''p1'', name = ''Mug'', price = Finite 5, quantity = Finite 2,
               image' = ''mug.png''\<rparr>,
      UpdateQuantity ''p2'' 0,
      UpdateQuantity ''p1'' (Finite 7),
      RemoveItem ''p3''] initial)
     = [\<lparr>id' = ''p1'', name = ''Mug'', price = Finite 5, quantity = Finite 7,
         image' = ''mug.png''\<rparr>]"
proof -
  let ?as = "[AddItem \<lparr>id' = ''p1'', name = ''Mug'', price = Finite 5, quantity = Finite 1,
               image' = ''mug.png''\<rparr>,
      AddItem \<lparr>id' = ''p2'', name = ''Pen'', price = Finite 1, quantity = Finite 4,
               image' = ''pen.png''\<rparr>,
      AddItem \<lparr>id' = ''p1'', name = ''Mug'', price = Finite 5, quantity = Finite 2,
               image' = ''mug.png''\<rparr>,
      UpdateQuantity ''p2'' 0,
      UpdateQuantity ''p1'' (Finite 7),
      RemoveItem ''p3'']"
  have checked: "list_all quantity_checked ?as"
    by (simp add: less_eq_number_def one_number_def zero_number_def)
  then have "quantities_positive (run ?as initial)"
    by (rule quantities_positive_reachable)
  moreover have "items (run ?as initial) =
      [\<lparr>id' = ''p1'', name = ''Mug'', price = Finite 5, quantity = Finite 7,
        image' = ''mug.png''\<rparr>]"
    by (simp add: addItem_def removeItem_def updateQuantity_def initial_def
        binary64_Nats zero_number_def)
  ultimately show ?thesis
    using checked by (intro conjI)
qed

text \<open>
  With arbitrary arguments the quantities do not stay at one or more: adding an item of
  quantity zero to the empty cart stores a line of quantity zero, and updating a line to
  the quantity one half stores one half.
\<close>

theorem quantities_positive_counterexample:
  "\<not> quantities_positive (run
      [AddItem \<lparr>id' = ''p1'', name = ''Mug'', price = Finite 5, quantity = 0,
                image' = ''mug.png''\<rparr>]
      initial)
   \<and> \<not> quantities_positive (run
      [AddItem \<lparr>id' = ''p1'', name = ''Mug'', price = Finite 5, quantity = Finite 1,
                image' = ''mug.png''\<rparr>,
       UpdateQuantity ''p1'' (Finite (1 / 2))]
      initial)"
  by (simp add: quantities_positive_def addItem_def updateQuantity_def initial_def
      less_eq_number_def one_number_def zero_number_def)

subsection \<open>Updating a quantity\<close>

text \<open>
  Claim C4. \<open>updateQuantity x q\<close> with \<open>q \<le> 0\<close> leaves no line item of id \<open>x\<close>; with
  \<open>0 < q\<close> it keeps every line in its place, sets the quantity of each line of id \<open>x\<close> to
  \<open>q\<close> and changes no other field; in both cases the line items of the other ids are the
  same, in the same order.
\<close>

theorem updateQuantity_spec:
  "(q \<le> 0 \<longrightarrow> (\<forall>i \<in> set (items (updateQuantity x q state)). id' i \<noteq> x))
   \<and> (0 < q \<longrightarrow>
        list_all2 (\<lambda>old new. new = (if id' old = x then old\<lparr>quantity := q\<rparr> else old))
          (items state) (items (updateQuantity x q state))
        \<and> (\<forall>i \<in> set (items (updateQuantity x q state)). id' i = x \<longrightarrow> quantity i = q))
   \<and> filter (\<lambda>i. id' i \<noteq> x) (items (updateQuantity x q state))
       = filter (\<lambda>i. id' i \<noteq> x) (items state)"
proof (intro conjI impI ballI)
  fix i
  assume "q \<le> 0" and i: "i \<in> set (items (updateQuantity x q state))"
  from \<open>q \<le> 0\<close> have "\<not> 0 < q"
    by (rule le_zero_not_pos)
  with i show "id' i \<noteq> x"
    by (simp add: items_updateQuantity_nonpos)
next
  assume "0 < q"
  then show "list_all2 (\<lambda>old new. new = (if id' old = x then old\<lparr>quantity := q\<rparr> else old))
          (items state) (items (updateQuantity x q state))"
    by (simp add: items_updateQuantity_pos list_all2_map2 list_all2_same)
next
  fix i
  assume "0 < q" and "i \<in> set (items (updateQuantity x q state))" and "id' i = x"
  then show "quantity i = q"
    unfolding items_updateQuantity_pos [OF \<open>0 < q\<close>] by (rule_tac updated_quantity)
next
  show "filter (\<lambda>i. id' i \<noteq> x) (items (updateQuantity x q state))
       = filter (\<lambda>i. id' i \<noteq> x) (items state)"
  proof (cases "0 < q")
    case True
    then show ?thesis
      unfolding items_updateQuantity_pos [OF True] by (simp only: updated_others)
  next
    case False
    then show ?thesis
      unfolding items_updateQuantity_nonpos [OF False] by simp
  qed
qed

theorem updateQuantity_spec_witness:
  "(0::number) \<le> 0
   \<and> list_all (\<lambda>i. id' i \<noteq> ''p1'') (items (updateQuantity ''p1'' 0 \<lparr>items =
        [\<lparr>id' = ''p1'', name = ''Mug'', price = Finite 5, quantity = Finite 2,
          image' = ''mug.png''\<rparr>,
         \<lparr>id' = ''p2'', name = ''Pen'', price = Finite 1, quantity = Finite 1,
          image' = ''pen.png''\<rparr>]\<rparr>))
   \<and> (0::number) < Finite 3
   \<and> list_all2
        (\<lambda>old new. new = (if id' old = ''p1'' then old\<lparr>quantity := Finite 3\<rparr> else old))
        [\<lparr>id' = ''p1'', name = ''Mug'', price = Finite 5, quantity = Finite 2,
          image' = ''mug.png''\<rparr>,
         \<lparr>id' = ''p2'', name = ''Pen'', price = Finite 1, quantity = Finite 1,
          image' = ''pen.png''\<rparr>]
        (items (updateQuantity ''p1'' (Finite 3) \<lparr>items =
        [\<lparr>id' = ''p1'', name = ''Mug'', price = Finite 5, quantity = Finite 2,
          image' = ''mug.png''\<rparr>,
         \<lparr>id' = ''p2'', name = ''Pen'', price = Finite 1, quantity = Finite 1,
          image' = ''pen.png''\<rparr>]\<rparr>))"
proof -
  let ?s = "\<lparr>items =
        [\<lparr>id' = ''p1'', name = ''Mug'', price = Finite 5, quantity = Finite 2,
          image' = ''mug.png''\<rparr>,
         \<lparr>id' = ''p2'', name = ''Pen'', price = Finite 1, quantity = Finite 1,
          image' = ''pen.png''\<rparr>]\<rparr>"
  have le: "(0::number) \<le> 0"
    by (simp add: less_eq_number_def zero_number_def)
  have less: "(0::number) < Finite 3"
    by (simp add: zero_number_def)
  have "list_all (\<lambda>i. id' i \<noteq> ''p1'') (items (updateQuantity ''p1'' 0 ?s))"
    using updateQuantity_spec [of 0 "''p1''" ?s] le unfolding list_all_iff by blast
  moreover have "list_all2
        (\<lambda>old new. new = (if id' old = ''p1'' then old\<lparr>quantity := Finite 3\<rparr> else old))
        (items ?s) (items (updateQuantity ''p1'' (Finite 3) ?s))"
    using updateQuantity_spec [of "Finite 3" "''p1''" ?s] less by blast
  moreover have "items ?s =
        [\<lparr>id' = ''p1'', name = ''Mug'', price = Finite 5, quantity = Finite 2,
          image' = ''mug.png''\<rparr>,
         \<lparr>id' = ''p2'', name = ''Pen'', price = Finite 1, quantity = Finite 1,
          image' = ''pen.png''\<rparr>]"
    by simp
  ultimately show ?thesis
    using le less by (simp only: simp_thms)
qed

subsection \<open>Adding an item whose id is not in the cart\<close>

text \<open>
  Claim C5. When no line item of the cart has the id of the added item, \<open>addItem\<close>
  puts the item at the end of the items list as a new line; the lines that were there
  come first, unchanged and in their order.
\<close>

theorem addItem_new_appends:
  assumes "\<forall>i \<in> set (items state). id' i \<noteq> id' item"
  shows "items (addItem item state) = items state @ [item]"
  using assms by (rule items_addItem_new)

theorem addItem_new_appends_witness:
  "list_all (\<lambda>i. id' i \<noteq> ''p2'')
     [\<lparr>id' = ''p1'', name = ''Mug'', price = Finite 5, quantity = Finite 2, image' = ''mug.png''\<rparr>]
   \<and> items (addItem
        \<lparr>id' = ''p2'', name = ''Pen'', price = Finite 1, quantity = Finite 1, image' = ''pen.png''\<rparr>
        \<lparr>items =
          [\<lparr>id' = ''p1'', name = ''Mug'', price = Finite 5, quantity = Finite 2, image' = ''mug.png''\<rparr>]\<rparr>)
     = [\<lparr>id' = ''p1'', name = ''Mug'', price = Finite 5, quantity = Finite 2, image' = ''mug.png''\<rparr>,
        \<lparr>id' = ''p2'', name = ''Pen'', price = Finite 1, quantity = Finite 1, image' = ''pen.png''\<rparr>]"
proof -
  let ?s = "\<lparr>items =
      [\<lparr>id' = ''p1'', name = ''Mug'', price = Finite 5, quantity = Finite 2, image' = ''mug.png''\<rparr>]\<rparr>"
  let ?item = "\<lparr>id' = ''p2'', name = ''Pen'', price = Finite 1, quantity = Finite 1, image' = ''pen.png''\<rparr>"
  have absent: "\<forall>i \<in> set (items ?s). id' i \<noteq> id' ?item"
    by simp
  have "items (addItem ?item ?s) = items ?s @ [?item]"
    using absent by (rule addItem_new_appends)
  then show ?thesis
    by simp
qed

subsection \<open>What a merge leaves alone\<close>

text \<open>
  Claim C8. When \<open>addItem\<close> merges into the cart (the id of the added item is the id of
  a line item), every line keeps its id, name, price and image, a line of another id is
  kept whole, and a line of that id changes in its quantity only; the name, the price and
  the image of the added item play no part in the result.
\<close>

theorem addItem_merge_frame:
  assumes "\<exists>i \<in> set (items state). id' i = id' item"
  shows "list_all2 (\<lambda>old new.
            new = old\<lparr>quantity := quantity new\<rparr>
            \<and> id' new = id' old \<and> name new = name old
            \<and> price new = price old \<and> image' new = image' old
            \<and> (id' old \<noteq> id' item \<longrightarrow> new = old))
          (items state) (items (addItem item state))
       \<and> items (addItem (item\<lparr>name := n, price := p, image' := im\<rparr>) state)
           = items (addItem item state)"
proof
  show "list_all2 (\<lambda>old new.
            new = old\<lparr>quantity := quantity new\<rparr>
            \<and> id' new = id' old \<and> name new = name old
            \<and> price new = price old \<and> image' new = image' old
            \<and> (id' old \<noteq> id' item \<longrightarrow> new = old))
          (items state) (items (addItem item state))"
    unfolding items_addItem_existing [OF assms]
    by (simp add: list_all2_map2 list_all2_same)
next
  from assms
  have "\<exists>i \<in> set (items state). id' i = id' (item\<lparr>name := n, price := p, image' := im\<rparr>)"
    by simp
  then have "items (addItem (item\<lparr>name := n, price := p, image' := im\<rparr>) state)
      = map (\<lambda>i. if id' i = id' (item\<lparr>name := n, price := p, image' := im\<rparr>)
                 then i\<lparr>quantity := quantity i
                        + quantity (item\<lparr>name := n, price := p, image' := im\<rparr>)\<rparr>
                 else i) (items state)"
    by (rule items_addItem_existing)
  also have "\<dots> = map (\<lambda>i. if id' i = id' item
                 then i\<lparr>quantity := quantity i + quantity item\<rparr> else i) (items state)"
    by simp
  also have "\<dots> = items (addItem item state)"
    using assms by (rule items_addItem_existing [symmetric])
  finally show "items (addItem (item\<lparr>name := n, price := p, image' := im\<rparr>) state)
           = items (addItem item state)" .
qed

theorem addItem_merge_frame_witness:
  "list_ex (\<lambda>i. id' i = ''p1'')
     [\<lparr>id' = ''p1'', name = ''Mug'', price = Finite 5, quantity = Finite 2, image' = ''mug.png''\<rparr>,
      \<lparr>id' = ''p2'', name = ''Pen'', price = Finite 1, quantity = Finite 1, image' = ''pen.png''\<rparr>]
   \<and> items (addItem
        \<lparr>id' = ''p1'', name = ''Cup'', price = Finite 9, quantity = Finite 1, image' = ''cup.png''\<rparr>
        \<lparr>items =
          [\<lparr>id' = ''p1'', name = ''Mug'', price = Finite 5, quantity = Finite 2, image' = ''mug.png''\<rparr>,
           \<lparr>id' = ''p2'', name = ''Pen'', price = Finite 1, quantity = Finite 1, image' = ''pen.png''\<rparr>]\<rparr>)
     = [\<lparr>id' = ''p1'', name = ''Mug'', price = Finite 5, quantity = Finite 3, image' = ''mug.png''\<rparr>,
        \<lparr>id' = ''p2'', name = ''Pen'', price = Finite 1, quantity = Finite 1, image' = ''pen.png''\<rparr>]
   \<and> items (addItem
        \<lparr>id' = ''p1'', name = ''Mug'', price = Finite 5, quantity = Finite 1, image' = ''mug.png''\<rparr>
        \<lparr>items =
          [\<lparr>id' = ''p1'', name = ''Mug'', price = Finite 5, quantity = Finite 2, image' = ''mug.png''\<rparr>,
           \<lparr>id' = ''p2'', name = ''Pen'', price = Finite 1, quantity = Finite 1, image' = ''pen.png''\<rparr>]\<rparr>)
     = items (addItem
        \<lparr>id' = ''p1'', name = ''Cup'', price = Finite 9, quantity = Finite 1, image' = ''cup.png''\<rparr>
        \<lparr>items =
          [\<lparr>id' = ''p1'', name = ''Mug'', price = Finite 5, quantity = Finite 2, image' = ''mug.png''\<rparr>,
           \<lparr>id' = ''p2'', name = ''Pen'', price = Finite 1, quantity = Finite 1, image' = ''pen.png''\<rparr>]\<rparr>)"
proof -
  let ?s = "\<lparr>items =
      [\<lparr>id' = ''p1'', name = ''Mug'', price = Finite 5, quantity = Finite 2, image' = ''mug.png''\<rparr>,
       \<lparr>id' = ''p2'', name = ''Pen'', price = Finite 1, quantity = Finite 1, image' = ''pen.png''\<rparr>]\<rparr>"
  let ?item = "\<lparr>id' = ''p1'', name = ''Cup'', price = Finite 9, quantity = Finite 1, image' = ''cup.png''\<rparr>"
  have present: "\<exists>i \<in> set (items ?s). id' i = id' ?item"
    by simp
  have "items (addItem (?item\<lparr>name := ''Mug'', price := Finite 5, image' := ''mug.png''\<rparr>) ?s)
      = items (addItem ?item ?s)"
    using addItem_merge_frame [where n = "''Mug''" and p = "Finite 5" and im = "''mug.png''", OF present]
    by (rule conjunct2)
  moreover have "items (addItem ?item ?s) =
      [\<lparr>id' = ''p1'', name = ''Mug'', price = Finite 5, quantity = Finite 3, image' = ''mug.png''\<rparr>,
       \<lparr>id' = ''p2'', name = ''Pen'', price = Finite 1, quantity = Finite 1, image' = ''pen.png''\<rparr>]"
    by (simp add: addItem_def binary64_Nats)
  ultimately show ?thesis
    by simp
qed

subsection \<open>Adding and removing\<close>

text \<open>
  Claim C9. When no line item of the cart has the id of the added item, \<open>addItem\<close>
  followed by \<open>removeItem\<close> of that id gives the state back; and \<open>removeItem\<close> of an id
  twice is \<open>removeItem\<close> of that id once, on every state.
\<close>

theorem addItem_removeItem_and_idempotence:
  "((\<forall>i \<in> set (items state). id' i \<noteq> id' item) \<longrightarrow>
      removeItem (id' item) (addItem item state) = state)
   \<and> removeItem x (removeItem x state) = removeItem x state"
proof (intro conjI impI)
  assume absent: "\<forall>i \<in> set (items state). id' i \<noteq> id' item"
  then have "filter (\<lambda>i. id' i \<noteq> id' item) (items state) = items state"
    by (simp add: filter_id_conv)
  moreover from absent have "addItem item state = state\<lparr>items := items state @ [item]\<rparr>"
    by (simp add: addItem_def existing_iff)
  ultimately show "removeItem (id' item) (addItem item state) = state"
    by (simp add: removeItem_def)
next
  show "removeItem x (removeItem x state) = removeItem x state"
    by (simp add: removeItem_def)
qed

theorem addItem_removeItem_and_idempotence_witness:
  "list_all (\<lambda>i. id' i \<noteq> ''p2'')
     [\<lparr>id' = ''p1'', name = ''Mug'', price = Finite 5, quantity = Finite 2, image' = ''mug.png''\<rparr>]
   \<and> removeItem ''p2'' (addItem
        \<lparr>id' = ''p2'', name = ''Pen'', price = Finite 1, quantity = Finite 1, image' = ''pen.png''\<rparr>
        \<lparr>items =
          [\<lparr>id' = ''p1'', name = ''Mug'', price = Finite 5, quantity = Finite 2, image' = ''mug.png''\<rparr>]\<rparr>)
     = \<lparr>items =
          [\<lparr>id' = ''p1'', name = ''Mug'', price = Finite 5, quantity = Finite 2, image' = ''mug.png''\<rparr>]\<rparr>"
proof -
  let ?s = "\<lparr>items =
      [\<lparr>id' = ''p1'', name = ''Mug'', price = Finite 5, quantity = Finite 2, image' = ''mug.png''\<rparr>]\<rparr>"
  let ?item = "\<lparr>id' = ''p2'', name = ''Pen'', price = Finite 1, quantity = Finite 1, image' = ''pen.png''\<rparr>"
  have absent: "\<forall>i \<in> set (items ?s). id' i \<noteq> id' ?item"
    by simp
  have "removeItem (id' ?item) (addItem ?item ?s) = ?s"
    using addItem_removeItem_and_idempotence [of ?s ?item] absent by blast
  then show ?thesis
    by simp
qed

subsection \<open>The total number of items after an addition\<close>




end
